theory Spec2Isabelle
  imports Main
begin

section \<open>Data model\<close>

text \<open>
  The route handlers of app.py work on four tables: users, messages, follow
  edges and like edges. The tables are kept as lists, in insertion order, so
  that a repeated row is visible. Ids are the non-negative integers that the
  integer converters of the routes accept. A follow edge is the pair
  (follower id, followed id); a like edge is the pair (user id, message id).
\<close>

record user =
  u_id :: nat
  u_username :: string
  u_email :: string
  u_password :: string
  u_image_url :: string

record message =
  m_id :: nat
  m_text :: string
  m_timestamp :: int
  m_user_id :: nat

record database =
  users :: "user list"
  messages :: "message list"
  follows :: "(nat \<times> nat) list"
  likes :: "(nat \<times> nat) list"

text \<open>The Flask session is a dictionary; only the key of the current user is read or written.\<close>

type_synonym session = "string \<rightharpoonup> nat"

definition CURR_USER_KEY :: string where
  "CURR_USER_KEY = ''curr_user''"

text \<open>The request global g: the current user and whether the CSRF form was attached.\<close>

record g_ctx =
  g_user :: "user option"
  g_csrf_form :: bool

datatype http_method = GET | POST

text \<open>
  What a request carries. The field validators live in forms.py, which is not
  part of the sources: their verdict on the submitted fields is the input
  \<open>fields_ok\<close>, and the verdict on the anti-forgery token is \<open>csrf_ok\<close>.
  \<open>now\<close> is the clock that stamps a new message.
\<close>

record request =
  req_method :: http_method
  csrf_ok :: bool
  fields_ok :: bool
  form_username :: string
  form_password :: string
  form_email :: string
  form_image_url :: string
  form_text :: string
  form_origin_url :: "string option"
  now :: int

text \<open>
  Exceptions are values. NotFound and Unauthorized are the HTTP exceptions of
  werkzeug (404 and 401), MethodNotAllowed the one of the router (405),
  ValueError is the one of list.remove, IntegrityError the one of a failed
  commit.
\<close>

datatype error = NotFound | Unauthorized | MethodNotAllowed | ValueError | IntegrityError

datatype template_ctx =
    Ctx_none
  | Ctx_form
  | Ctx_user "user option"
  | Ctx_message message
  | Ctx_messages "message list"

datatype page =
    Redirect string
  | Redirect_origin "string option"
  | Render string template_ctx

record outcome =
  out_db :: database
  out_session :: session
  out_flashes :: "(string \<times> string) list"
  out_response :: "error + page"

text \<open>
  The default image URL and the password hash are those of models.py (missing
  from the sources); the handlers take them as parameters.
\<close>

record config =
  default_image_url :: string
  hash_password :: "string \<Rightarrow> string"

section \<open>Queries and the session\<close>

definition User_query_get :: "database \<Rightarrow> nat \<Rightarrow> user option" where
  "User_query_get db i = find (\<lambda>u. u_id u = i) (users db)"

definition Message_query_get :: "database \<Rightarrow> nat \<Rightarrow> message option" where
  "Message_query_get db i = find (\<lambda>m. m_id m = i) (messages db)"

definition add_user_and_csrf_to_g :: "database \<Rightarrow> session \<Rightarrow> g_ctx" where
  "add_user_and_csrf_to_g db sess =
     (case sess CURR_USER_KEY of
        Some i \<Rightarrow> \<lparr>g_user = User_query_get db i, g_csrf_form = True\<rparr>
      | None \<Rightarrow> \<lparr>g_user = None, g_csrf_form = False\<rparr>)"

definition do_login :: "session \<Rightarrow> user \<Rightarrow> session" where
  "do_login sess u = sess(CURR_USER_KEY \<mapsto> u_id u)"

definition do_logout :: "session \<Rightarrow> session" where
  "do_logout sess =
     (if sess CURR_USER_KEY \<noteq> None then sess(CURR_USER_KEY := None) else sess)"

text \<open>
  validate_on_submit of Flask-WTF: the request is a submission (POST) and the
  form validates. The CSRF form has the token as its only field.
\<close>

definition csrf_validate_on_submit :: "request \<Rightarrow> bool" where
  "csrf_validate_on_submit r = (req_method r = POST \<and> csrf_ok r)"

definition form_validate_on_submit :: "request \<Rightarrow> bool" where
  "form_validate_on_submit r = (req_method r = POST \<and> csrf_ok r \<and> fields_ok r)"

text \<open>
  Modelled from the spec: the relationship collection \<open>following\<close> of models.py
  (missing from the sources), which the spec describes as a forward traversal
  of the edge table: the users at the far end of the edges that start at u.
\<close>

definition following :: "database \<Rightarrow> user \<Rightarrow> user list" where
  "following db u =
     List.map_filter
       (\<lambda>e. if fst e = u_id u then User_query_get db (snd e) else None)
       (follows db)"

section \<open>Home feed\<close>

text \<open>
  homepage: the ids followed plus the user's own id, the messages of those
  authors, ORDER BY timestamp DESC, LIMIT 100. The sort is the stable
  insertion sort on the negated timestamp, which fixes the order of ties (SQL
  leaves it open).
\<close>

definition feed :: "database \<Rightarrow> user \<Rightarrow> message list" where
  "feed db u =
     (let following_ids = map u_id (following db u) @ [u_id u] in
      take 100
        (sort_key (\<lambda>m. - m_timestamp m)
           (filter (\<lambda>m. m_user_id m \<in> set following_ids) (messages db))))"

definition homepage :: "g_ctx \<Rightarrow> database \<Rightarrow> page" where
  "homepage g db =
     (case g_user g of
        Some u \<Rightarrow> Render ''home.html'' (Ctx_messages (feed db u))
      | None \<Rightarrow> Render ''home-anon.html'' Ctx_none)"

section \<open>The unit of work\<close>

text \<open>
  A handler changes the session's working copy of the database and then calls
  db.session.commit(). The commit flushes the working copy: every user row
  that is new or changed is checked against the unique columns (username,
  email) of the other rows. When the check fails the commit raises
  IntegrityError and the transaction is rolled back, so nothing of the working
  copy reaches the database; otherwise the working copy becomes the database.
\<close>

definition unique_violation :: "user list \<Rightarrow> user \<Rightarrow> bool" where
  "unique_violation us u =
     list_ex (\<lambda>v. u_id v \<noteq> u_id u \<and> (u_username v = u_username u \<or> u_email v = u_email u)) us"

definition db_session_commit :: "database \<Rightarrow> database \<Rightarrow> error + database" where
  "db_session_commit committed work =
     (if list_ex (\<lambda>u. u \<notin> set (users committed) \<and> unique_violation (users work) u) (users work)
      then Inl IntegrityError
      else Inr work)"

definition fresh_user_id :: "database \<Rightarrow> nat" where
  "fresh_user_id db = Suc (fold max (map u_id (users db)) 0)"

definition fresh_message_id :: "database \<Rightarrow> nat" where
  "fresh_message_id db = Suc (fold max (map m_id (messages db)) 0)"

text \<open>
  Modelled from the spec: User.signup of models.py (missing from the sources).
  The spec: it stores a salted and hashed password and returns the new
  identity; duplicates of username or email are a uniqueness violation. The
  new row is added to the session; the violation shows when the commit flushes
  it, which is where the handler and the tests catch it.
\<close>

definition User_signup ::
  "config \<Rightarrow> string \<Rightarrow> string \<Rightarrow> string \<Rightarrow> string \<Rightarrow> database \<Rightarrow> user \<times> database" where
  "User_signup cfg name pw mail img db =
     (let user = \<lparr>u_id = fresh_user_id db, u_username = name, u_email = mail,
                  u_password = hash_password cfg pw, u_image_url = img\<rparr>
      in (user, db\<lparr>users := users db @ [user]\<rparr>))"

text \<open>
  Modelled from the spec: the relationship collection \<open>liked_messages\<close> of
  models.py (missing from the sources): the messages at the far end of the
  like edges of u.
\<close>

definition liked_messages :: "database \<Rightarrow> user \<Rightarrow> message list" where
  "liked_messages db u =
     List.map_filter
       (\<lambda>e. if fst e = u_id u then Message_query_get db (snd e) else None)
       (likes db)"

text \<open>
  Modelled from the spec: the delete cascade declared in models.py (missing
  from the sources). The spec: deleting a user cascades to the messages the
  user owns and to the associated follow and like edges. The follow edges with
  the user at either end go, and so do the like edges of the user and those on
  the messages that go.
\<close>

definition User_delete_cascade :: "database \<Rightarrow> nat \<Rightarrow> database" where
  "User_delete_cascade db i =
     (let gone = map m_id (filter (\<lambda>m. m_user_id m = i) (messages db)) in
      \<lparr>users = filter (\<lambda>u. u_id u \<noteq> i) (users db),
       messages = filter (\<lambda>m. m_user_id m \<noteq> i) (messages db),
       follows = filter (\<lambda>e. fst e \<noteq> i \<and> snd e \<noteq> i) (follows db),
       likes = filter (\<lambda>e. fst e \<noteq> i \<and> snd e \<notin> set gone) (likes db)\<rparr>)"

section \<open>Responses\<close>

fun str_of_nat :: "nat \<Rightarrow> string" where
  "str_of_nat n =
     (if n < 10 then [char_of (48 + n)]
      else str_of_nat (n div 10) @ [char_of (48 + n mod 10)])"

definition respond :: "database \<Rightarrow> session \<Rightarrow> page \<Rightarrow> outcome" where
  "respond db sess p =
     \<lparr>out_db = db, out_session = sess, out_flashes = [], out_response = Inr p\<rparr>"

definition flash_and :: "database \<Rightarrow> session \<Rightarrow> string \<Rightarrow> string \<Rightarrow> page \<Rightarrow> outcome" where
  "flash_and db sess msg category p =
     \<lparr>out_db = db, out_session = sess, out_flashes = [(msg, category)], out_response = Inr p\<rparr>"

definition raise :: "database \<Rightarrow> session \<Rightarrow> error \<Rightarrow> outcome" where
  "raise db sess e =
     \<lparr>out_db = db, out_session = sess, out_flashes = [], out_response = Inl e\<rparr>"

text \<open>The two lines that open most handlers: flash the warning, redirect to the root.\<close>

definition access_unauthorized :: "database \<Rightarrow> session \<Rightarrow> outcome" where
  "access_unauthorized db sess =
     flash_and db sess ''Access unauthorized.'' ''danger'' (Redirect ''/'')"

section \<open>Route handlers\<close>

definition signup :: "config \<Rightarrow> database \<Rightarrow> session \<Rightarrow> request \<Rightarrow> outcome" where
  "signup cfg db sess r =
     (let sess1 = do_logout sess in
      if form_validate_on_submit r then
        (let (user, work) =
               User_signup cfg (form_username r) (form_password r) (form_email r)
                 (if form_image_url r = [] then default_image_url cfg else form_image_url r) db
         in case db_session_commit db work of
              Inl e \<Rightarrow>
                (if e = IntegrityError
                 then flash_and db sess1 ''Username already taken'' ''danger''
                        (Render ''users/signup.html'' Ctx_form)
                 else raise db sess1 e)
            | Inr db' \<Rightarrow> respond db' (do_login sess1 user) (Redirect ''/''))
      else respond db sess1 (Render ''users/signup.html'' Ctx_form))"

definition show_user :: "g_ctx \<Rightarrow> database \<Rightarrow> session \<Rightarrow> nat \<Rightarrow> outcome" where
  "show_user g db sess user_id =
     (case g_user g of
        None \<Rightarrow> access_unauthorized db sess
      | Some _ \<Rightarrow>
          (case User_query_get db user_id of
             None \<Rightarrow> raise db sess NotFound
           | Some user \<Rightarrow> respond db sess (Render ''users/show.html'' (Ctx_user (Some user)))))"

definition show_following :: "g_ctx \<Rightarrow> database \<Rightarrow> session \<Rightarrow> nat \<Rightarrow> outcome" where
  "show_following g db sess user_id =
     (case g_user g of
        None \<Rightarrow> access_unauthorized db sess
      | Some _ \<Rightarrow>
          (case User_query_get db user_id of
             None \<Rightarrow> raise db sess NotFound
           | Some user \<Rightarrow> respond db sess (Render ''users/following.html'' (Ctx_user (Some user)))))"

definition show_followers :: "g_ctx \<Rightarrow> database \<Rightarrow> session \<Rightarrow> nat \<Rightarrow> outcome" where
  "show_followers g db sess user_id =
     (case g_user g of
        None \<Rightarrow> access_unauthorized db sess
      | Some _ \<Rightarrow>
          (case User_query_get db user_id of
             None \<Rightarrow> raise db sess NotFound
           | Some user \<Rightarrow> respond db sess (Render ''users/followers.html'' (Ctx_user (Some user)))))"

text \<open>show_favorite_warbles reads the user with query.get, not get_or_404.\<close>

definition show_favorite_warbles :: "g_ctx \<Rightarrow> database \<Rightarrow> session \<Rightarrow> nat \<Rightarrow> outcome" where
  "show_favorite_warbles g db sess user_id =
     (case g_user g of
        None \<Rightarrow> access_unauthorized db sess
      | Some _ \<Rightarrow>
          respond db sess
            (Render ''users/liked_warbles.html'' (Ctx_user (User_query_get db user_id))))"

text \<open>
  Modelled from the spec: append on the relationship collection \<open>following\<close>
  of models.py (missing from the sources), as the commit stores it in the
  follow edge table. The spec: a given ordered pair appears at most once among
  the follow edges, and adding an edge is not de-duplicated beyond a membership
  check. So the pair is stored when it is not among the edges, and an append
  of a user who is followed already stores no second row.
\<close>

definition following_append :: "database \<Rightarrow> user \<Rightarrow> user \<Rightarrow> database" where
  "following_append db u followed_user =
     (if (u_id u, u_id followed_user) \<in> set (follows db) then db
      else db\<lparr>follows := follows db @ [(u_id u, u_id followed_user)]\<rparr>)"

text \<open>
  start_following: after the token test and the lookup, the one test the
  handler makes before the append is the comparison with g.user.
\<close>

definition start_following :: "g_ctx \<Rightarrow> database \<Rightarrow> session \<Rightarrow> request \<Rightarrow> nat \<Rightarrow> outcome" where
  "start_following g db sess r follow_id =
     (case g_user g of
        None \<Rightarrow> access_unauthorized db sess
      | Some u \<Rightarrow>
          if \<not> csrf_validate_on_submit r then access_unauthorized db sess
          else
            (case User_query_get db follow_id of
               None \<Rightarrow> raise db sess NotFound
             | Some followed_user \<Rightarrow>
                 if followed_user = u
                 then flash_and db sess ''You can not follow yourself.'' ''danger''
                        (Redirect ''/users'')
                 else
                   (case db_session_commit db (following_append db u followed_user) of
                      Inl e \<Rightarrow> raise db sess e
                    | Inr db' \<Rightarrow>
                        respond db' sess
                          (Redirect (''/users/'' @ str_of_nat (u_id u) @ ''/following'')))))"

text \<open>
  stop_following: list.remove raises ValueError when the element is not in the
  collection; the handler does not catch it, and nothing was committed.
\<close>

definition stop_following :: "g_ctx \<Rightarrow> database \<Rightarrow> session \<Rightarrow> request \<Rightarrow> nat \<Rightarrow> outcome" where
  "stop_following g db sess r follow_id =
     (case g_user g of
        None \<Rightarrow> access_unauthorized db sess
      | Some u \<Rightarrow>
          if \<not> csrf_validate_on_submit r then access_unauthorized db sess
          else
            (case User_query_get db follow_id of
               None \<Rightarrow> raise db sess NotFound
             | Some followed_user \<Rightarrow>
                 if followed_user \<in> set (following db u)
                 then
                   (case db_session_commit db
                           (db\<lparr>follows := remove1 (u_id u, u_id followed_user) (follows db)\<rparr>) of
                      Inl e \<Rightarrow> raise db sess e
                    | Inr db' \<Rightarrow>
                        respond db' sess
                          (Redirect (''/users/'' @ str_of_nat (u_id u) @ ''/following'')))
                 else raise db sess ValueError))"

definition delete_user :: "g_ctx \<Rightarrow> database \<Rightarrow> session \<Rightarrow> request \<Rightarrow> outcome" where
  "delete_user g db sess r =
     (case g_user g of
        None \<Rightarrow> access_unauthorized db sess
      | Some u \<Rightarrow>
          if \<not> csrf_validate_on_submit r then access_unauthorized db sess
          else
            (case db_session_commit db (User_delete_cascade db (u_id u)) of
               Inl e \<Rightarrow> raise db sess e
             | Inr db' \<Rightarrow> respond db' (do_logout sess) (Redirect ''/signup'')))"

text \<open>
  add_message: the new message gets a fresh id, the clock's timestamp (the
  column default of models.py) and the current user as its owner.
\<close>

definition add_message :: "g_ctx \<Rightarrow> database \<Rightarrow> session \<Rightarrow> request \<Rightarrow> outcome" where
  "add_message g db sess r =
     (case g_user g of
        None \<Rightarrow> access_unauthorized db sess
      | Some u \<Rightarrow>
          if form_validate_on_submit r then
            (let msg = \<lparr>m_id = fresh_message_id db, m_text = form_text r,
                        m_timestamp = now r, m_user_id = u_id u\<rparr>
             in case db_session_commit db (db\<lparr>messages := messages db @ [msg]\<rparr>) of
                  Inl e \<Rightarrow> raise db sess e
                | Inr db' \<Rightarrow> respond db' sess (Redirect (''/users/'' @ str_of_nat (u_id u))))
          else respond db sess (Render ''messages/create.html'' Ctx_form))"

definition show_message :: "g_ctx \<Rightarrow> database \<Rightarrow> session \<Rightarrow> nat \<Rightarrow> outcome" where
  "show_message g db sess message_id =
     (case g_user g of
        None \<Rightarrow> access_unauthorized db sess
      | Some _ \<Rightarrow>
          (case Message_query_get db message_id of
             None \<Rightarrow> raise db sess NotFound
           | Some msg \<Rightarrow> respond db sess (Render ''messages/show.html'' (Ctx_message msg))))"

text \<open>
  delete_message looks the message up first, then checks the owner, then the
  token. db.session.delete removes the message's row; what becomes of the like
  edges on it is decided in models.py, and the likes table is left as it is.
\<close>

definition delete_message :: "g_ctx \<Rightarrow> database \<Rightarrow> session \<Rightarrow> request \<Rightarrow> nat \<Rightarrow> outcome" where
  "delete_message g db sess r message_id =
     (case Message_query_get db message_id of
        None \<Rightarrow> raise db sess NotFound
      | Some msg \<Rightarrow>
          (case g_user g of
             None \<Rightarrow> access_unauthorized db sess
           | Some u \<Rightarrow>
               if m_user_id msg \<noteq> u_id u then access_unauthorized db sess
               else if csrf_validate_on_submit r then
                 (case db_session_commit db
                         (db\<lparr>messages := filter (\<lambda>m. m_id m \<noteq> m_id msg) (messages db)\<rparr>) of
                    Inl e \<Rightarrow> raise db sess e
                  | Inr db' \<Rightarrow> respond db' sess (Redirect (''/users/'' @ str_of_nat (u_id u))))
               else raise db sess Unauthorized))"

text \<open>
  handle_favorites: the membership test decides between append and remove. The
  redirect goes to the form field origin_url, which request.form.get leaves
  None when the field is missing.
\<close>

definition handle_favorites :: "g_ctx \<Rightarrow> database \<Rightarrow> session \<Rightarrow> request \<Rightarrow> nat \<Rightarrow> outcome" where
  "handle_favorites g db sess r message_id =
     (case g_user g of
        None \<Rightarrow> access_unauthorized db sess
      | Some u \<Rightarrow>
          if \<not> csrf_validate_on_submit r then access_unauthorized db sess
          else
            (case Message_query_get db message_id of
               None \<Rightarrow> raise db sess NotFound
             | Some msg \<Rightarrow>
                 (let origin_url = form_origin_url r;
                      work =
                        (if msg \<notin> set (liked_messages db u)
                         then db\<lparr>likes := likes db @ [(u_id u, m_id msg)]\<rparr>
                         else db\<lparr>likes := remove1 (u_id u, m_id msg) (likes db)\<rparr>)
                  in case db_session_commit db work of
                       Inl e \<Rightarrow> raise db sess e
                     | Inr db' \<Rightarrow> respond db' sess (Redirect_origin origin_url))))"

section \<open>Requests\<close>

datatype route =
    Signup
  | Show_user nat
  | Show_following nat
  | Show_followers nat
  | Show_likes nat
  | Follow nat
  | Stop_following nat
  | Delete_user
  | Add_message
  | Show_message nat
  | Delete_message nat
  | Favorite nat
  | Homepage

text \<open>The methods each route is registered for.\<close>

fun allowed :: "route \<Rightarrow> http_method list" where
  "allowed Signup = [GET, POST]"
| "allowed Add_message = [GET, POST]"
| "allowed (Follow _) = [POST]"
| "allowed (Stop_following _) = [POST]"
| "allowed Delete_user = [POST]"
| "allowed (Delete_message _) = [POST]"
| "allowed (Favorite _) = [POST]"
| "allowed _ = [GET]"

text \<open>
  One request: the before_request hook fills g from the session, then the
  handler of the route runs. A method the route is not registered for is
  answered with 405 and changes nothing.
\<close>

definition handle_request ::
  "config \<Rightarrow> database \<Rightarrow> session \<Rightarrow> route \<Rightarrow> request \<Rightarrow> outcome" where
  "handle_request cfg db sess rt r =
     (let g = add_user_and_csrf_to_g db sess in
      if req_method r \<notin> set (allowed rt) then raise db sess MethodNotAllowed
      else
        (case rt of
           Signup \<Rightarrow> signup cfg db sess r
         | Show_user i \<Rightarrow> show_user g db sess i
         | Show_following i \<Rightarrow> show_following g db sess i
         | Show_followers i \<Rightarrow> show_followers g db sess i
         | Show_likes i \<Rightarrow> show_favorite_warbles g db sess i
         | Follow i \<Rightarrow> start_following g db sess r i
         | Stop_following i \<Rightarrow> stop_following g db sess r i
         | Delete_user \<Rightarrow> delete_user g db sess r
         | Add_message \<Rightarrow> add_message g db sess r
         | Show_message i \<Rightarrow> show_message g db sess i
         | Delete_message i \<Rightarrow> delete_message g db sess r i
         | Favorite i \<Rightarrow> handle_favorites g db sess r i
         | Homepage \<Rightarrow> respond db sess (homepage g db)))"

text \<open>A run of the application: requests served one after the other.\<close>

fun run :: "config \<Rightarrow> database \<times> session \<Rightarrow> (route \<times> request) list \<Rightarrow> database \<times> session" where
  "run cfg st [] = st"
| "run cfg st (x # xs) =
     (let out = handle_request cfg (fst st) (snd st) (fst x) (snd x)
      in run cfg (out_db out, out_session out) xs)"

text \<open>The state property of the follow edges: no edge leads from a user to that same user.\<close>

definition no_self_follow :: "database \<Rightarrow> bool" where
  "no_self_follow db = list_all (\<lambda>e. fst e \<noteq> snd e) (follows db)"

text \<open>Concrete data for the examples.\<close>

definition cfg0 :: config where
  "cfg0 = \<lparr>default_image_url = ''/static/images/default-pic.png'',
           hash_password = (\<lambda>p. ''$2b$'' @ rev p)\<rparr>"

definition alice :: user where
  "alice = \<lparr>u_id = 1, u_username = ''alice'', u_email = ''alice@example.com'',
            u_password = ''$2b$a'', u_image_url = ''/a.png''\<rparr>"

definition bob :: user where
  "bob = \<lparr>u_id = 2, u_username = ''bob'', u_email = ''bob@example.com'',
          u_password = ''$2b$b'', u_image_url = ''/b.png''\<rparr>"

definition carol :: user where
  "carol = \<lparr>u_id = 3, u_username = ''carol'', u_email = ''carol@example.com'',
            u_password = ''$2b$c'', u_image_url = ''/c.png''\<rparr>"

definition msg1 :: message where
  "msg1 = \<lparr>m_id = 1, m_text = ''first'', m_timestamp = 10, m_user_id = 1\<rparr>"

definition msg2 :: message where
  "msg2 = \<lparr>m_id = 2, m_text = ''second'', m_timestamp = 20, m_user_id = 2\<rparr>"

definition msg3 :: message where
  "msg3 = \<lparr>m_id = 3, m_text = ''third'', m_timestamp = 30, m_user_id = 3\<rparr>"

definition db0 :: database where
  "db0 = \<lparr>users = [alice, bob, carol], messages = [msg1, msg2, msg3],
          follows = [(1, 2)], likes = [(1, 2)]\<rparr>"

definition sess_alice :: session where
  "sess_alice = [CURR_USER_KEY \<mapsto> 1]"

definition post0 :: request where
  "post0 = \<lparr>req_method = POST, csrf_ok = True, fields_ok = True,
            form_username = ''dave'', form_password = ''secret'',
            form_email = ''dave@example.com'', form_image_url = [],
            form_text = ''hello'', form_origin_url = Some ''/'', now = 40\<rparr>"

definition get0 :: request where
  "get0 = post0\<lparr>req_method := GET\<rparr>"

section \<open>Properties\<close>

subsection \<open>Auxiliary facts\<close>

lemma find_Some_id:
  "find (\<lambda>u. u_id u = i) us = Some v \<Longrightarrow> u_id v = i \<and> v \<in> set us"
  by (induction us) (auto split: if_splits)

lemma map_filter_source:
  "v \<in> set (List.map_filter f xs) \<Longrightarrow> \<exists>e \<in> set xs. f e = Some v"
  by (induction xs) (auto simp: map_filter_simps split: option.splits)

lemma following_edge:
  assumes "v \<in> set (following db u)"
  shows "(u_id u, u_id v) \<in> set (follows db)"
proof -
  from assms obtain e where e: "e \<in> set (follows db)"
    and f: "(if fst e = u_id u then User_query_get db (snd e) else None) = Some v"
    unfolding following_def by (blast dest: map_filter_source)
  from f have "fst e = u_id u" and "User_query_get db (snd e) = Some v"
    by (auto split: if_splits)
  then have "fst e = u_id u" and "snd e = u_id v"
    by (auto simp: User_query_get_def dest: find_Some_id)
  then have "e = (u_id u, u_id v)" by (cases e) simp
  with e show ?thesis by simp
qed

lemmas example_defs =
  cfg0_def alice_def bob_def carol_def msg1_def msg2_def msg3_def db0_def
  sess_alice_def post0_def get0_def

lemma g_alice:
  "add_user_and_csrf_to_g db0 sess_alice = \<lparr>g_user = Some alice, g_csrf_form = True\<rparr>"
  by (simp add: add_user_and_csrf_to_g_def User_query_get_def example_defs)

lemma fold_max_lower: "(a::nat) \<le> fold max xs a"
  by (induction xs arbitrary: a) (auto intro: order_trans [OF max.cobounded2])

lemma fold_max_upper: "x \<in> set xs \<Longrightarrow> (x::nat) \<le> fold max xs a"
proof (induction xs arbitrary: a)
  case Nil
  then show ?case by simp
next
  case (Cons y ys)
  show ?case
  proof (cases "x = y")
    case True
    have "y \<le> max y a" by simp
    also have "\<dots> \<le> fold max ys (max y a)" by (rule fold_max_lower)
    finally show ?thesis using True by simp
  next
    case False
    with Cons show ?thesis by simp
  qed
qed

lemma fresh_user_id_new: "v \<in> set (users db) \<Longrightarrow> u_id v < fresh_user_id db"
  unfolding fresh_user_id_def using fold_max_upper [of "u_id v" "map u_id (users db)" 0]
  by (simp add: less_Suc_eq_le)

lemma User_query_get_Some:
  "User_query_get db i = Some u \<Longrightarrow> u_id u = i \<and> u \<in> set (users db)"
  unfolding User_query_get_def by (rule find_Some_id)

lemma Message_query_get_Some:
  "Message_query_get db i = Some m \<Longrightarrow> m_id m = i \<and> m \<in> set (messages db)"
  unfolding Message_query_get_def by (auto simp: find_Some_iff)

lemma commit_old_users:
  "set (users work) \<subseteq> set (users db) \<Longrightarrow> db_session_commit db work = Inr work"
  by (auto simp: db_session_commit_def list_ex_iff)

lemma map_filter_target:
  "e \<in> set xs \<Longrightarrow> f e = Some v \<Longrightarrow> v \<in> set (List.map_filter f xs)"
  by (force simp: List.map_filter_def)

lemma in_following_iff:
  assumes "User_query_get db b = Some v"
  shows "v \<in> set (following db u) \<longleftrightarrow> (u_id u, b) \<in> set (follows db)"
proof
  assume "v \<in> set (following db u)"
  then have "(u_id u, u_id v) \<in> set (follows db)" by (rule following_edge)
  with assms show "(u_id u, b) \<in> set (follows db)" by (auto dest: User_query_get_Some)
next
  assume "(u_id u, b) \<in> set (follows db)"
  then show "v \<in> set (following db u)"
    unfolding following_def using assms by (auto intro!: map_filter_target)
qed

lemma logged_in_g:
  "sess CURR_USER_KEY = Some a \<Longrightarrow> User_query_get db a = Some u \<Longrightarrow>
   add_user_and_csrf_to_g db sess = \<lparr>g_user = Some u, g_csrf_form = True\<rparr>"
  by (simp add: add_user_and_csrf_to_g_def)

lemma sorted_desc_take:
  "sorted (map (\<lambda>m. - m_timestamp m) xs) \<Longrightarrow>
   sorted_wrt (\<lambda>a b. m_timestamp b \<le> m_timestamp a) (take n xs)"
proof (induction xs arbitrary: n)
  case Nil
  then show ?case by simp
next
  case (Cons x xs)
  show ?case
  proof (cases n)
    case 0
    then show ?thesis by simp
  next
    case (Suc k)
    from Cons.prems have "\<forall>y \<in> set xs. m_timestamp y \<le> m_timestamp x" by auto
    moreover have "set (take k xs) \<subseteq> set xs" by (rule set_take_subset)
    moreover from Cons have "sorted_wrt (\<lambda>a b. m_timestamp b \<le> m_timestamp a) (take k xs)"
      by simp
    ultimately show ?thesis using Suc by auto
  qed
qed

subsection \<open>The home feed\<close>

text \<open>
  C1. For a logged-in user the page served at GET / is the home template with
  a list of messages in which every entry is a stored message written by the
  user or by somebody the user follows, the timestamps never increase from
  one entry to the next, and there are at most 100 entries.
\<close>

theorem homepage_feed:
  assumes "g_user g = Some u"
  shows "\<exists>ms. homepage g db = Render ''home.html'' (Ctx_messages ms)
           \<and> (\<forall>m \<in> set ms. m \<in> set (messages db)
                 \<and> (m_user_id m = u_id u \<or> (u_id u, m_user_id m) \<in> set (follows db)))
           \<and> sorted_wrt (\<lambda>a b. m_timestamp b \<le> m_timestamp a) ms
           \<and> length ms \<le> 100"
proof -
  let ?ids = "map u_id (following db u) @ [u_id u]"
  let ?sel = "filter (\<lambda>m. m_user_id m \<in> set ?ids) (messages db)"
  let ?srt = "sort_key (\<lambda>m. - m_timestamp m) ?sel"
  have fd: "feed db u = take 100 ?srt" by (simp add: feed_def Let_def)
  have mem: "\<forall>m \<in> set (feed db u). m \<in> set (messages db)
                 \<and> (m_user_id m = u_id u \<or> (u_id u, m_user_id m) \<in> set (follows db))"
  proof
    fix m assume "m \<in> set (feed db u)"
    then have "m \<in> set ?srt" unfolding fd by (rule in_set_takeD)
    then have a: "m \<in> set (messages db)" and b: "m_user_id m \<in> set ?ids" by auto
    from b have "m_user_id m = u_id u \<or> (\<exists>v \<in> set (following db u). m_user_id m = u_id v)"
      by auto
    then have "m_user_id m = u_id u \<or> (u_id u, m_user_id m) \<in> set (follows db)"
      by (auto dest: following_edge)
    with a show "m \<in> set (messages db)
                 \<and> (m_user_id m = u_id u \<or> (u_id u, m_user_id m) \<in> set (follows db))" by simp
  qed
  have srt: "sorted_wrt (\<lambda>a b. m_timestamp b \<le> m_timestamp a) (feed db u)"
    unfolding fd by (rule sorted_desc_take) simp
  have len: "length (feed db u) \<le> 100" unfolding fd by simp
  have "homepage g db = Render ''home.html'' (Ctx_messages (feed db u))"
    using assms by (simp add: homepage_def)
  with mem srt len show ?thesis by blast
qed

theorem homepage_feed_witness:
  "g_user (add_user_and_csrf_to_g db0 sess_alice) = Some alice
   \<and> (\<exists>ms. homepage (add_user_and_csrf_to_g db0 sess_alice) db0
               = Render ''home.html'' (Ctx_messages ms)
           \<and> (\<forall>m \<in> set ms. m \<in> set (messages db0)
                 \<and> (m_user_id m = u_id alice \<or> (u_id alice, m_user_id m) \<in> set (follows db0)))
           \<and> sorted_wrt (\<lambda>a b. m_timestamp b \<le> m_timestamp a) ms
           \<and> length ms \<le> 100)"
  using homepage_feed [of "add_user_and_csrf_to_g db0 sess_alice" alice db0]
  by (simp add: g_alice)

subsection \<open>Unfollowing somebody who is not followed\<close>

text \<open>
  C3. A logged-in user A with a valid token asks to stop following an existing
  user B whom A does not follow. The handler calls remove on A's following
  collection without testing membership, so the request ends in the ValueError
  of list.remove instead of completing; the database is left as it was.
\<close>

theorem stop_following_absent_edge:
  assumes "sess CURR_USER_KEY = Some a" and "User_query_get db a = Some u"
    and "req_method r = POST" and "csrf_ok r"
    and "User_query_get db b = Some v"
    and "(a, b) \<notin> set (follows db)"
  shows "out_response (handle_request cfg db sess (Stop_following b) r) = Inl ValueError
         \<and> out_db (handle_request cfg db sess (Stop_following b) r) = db"
proof -
  have "u_id u = a" using assms(2) by (simp add: User_query_get_Some)
  with assms(5,6) have "v \<notin> set (following db u)" by (simp add: in_following_iff)
  then have "stop_following \<lparr>g_user = Some u, g_csrf_form = True\<rparr> db sess r b
               = raise db sess ValueError"
    using assms by (simp add: stop_following_def csrf_validate_on_submit_def)
  then show ?thesis
    using assms by (simp add: handle_request_def logged_in_g raise_def)
qed

theorem stop_following_absent_edge_witness:
  "out_response (handle_request cfg0 db0 sess_alice (Stop_following 3) post0) = Inl ValueError
   \<and> out_db (handle_request cfg0 db0 sess_alice (Stop_following 3) post0) = db0"
  using stop_following_absent_edge [of sess_alice 1 db0 alice post0 3 carol cfg0]
  by (simp add: User_query_get_def example_defs)

lemma Message_query_get_filter_same:
  "Message_query_get (db\<lparr>messages := filter (\<lambda>m. m_id m \<noteq> i) (messages db)\<rparr>) i = None"
  by (simp add: Message_query_get_def find_None_iff)

lemma in_liked_iff:
  assumes "Message_query_get db i = Some msg"
  shows "msg \<in> set (liked_messages db u) \<longleftrightarrow> (u_id u, i) \<in> set (likes db)"
proof
  assume "msg \<in> set (liked_messages db u)"
  then obtain e where e: "e \<in> set (likes db)"
    and f: "(if fst e = u_id u then Message_query_get db (snd e) else None) = Some msg"
    unfolding liked_messages_def by (blast dest: map_filter_source)
  from f have "fst e = u_id u" and "Message_query_get db (snd e) = Some msg"
    by (auto split: if_splits)
  with assms have "fst e = u_id u" and "snd e = i"
    by (auto dest!: Message_query_get_Some)
  then have "e = (u_id u, i)" by (cases e) simp
  with e show "(u_id u, i) \<in> set (likes db)" by simp
next
  assume "(u_id u, i) \<in> set (likes db)"
  then show "msg \<in> set (liked_messages db u)"
    unfolding liked_messages_def using assms by (auto intro!: map_filter_target)
qed

lemma commit_same_users:
  "users work = users db \<Longrightarrow> db_session_commit db work = Inr work"
  by (simp add: commit_old_users)

subsection \<open>Favorites\<close>

text \<open>What one favorite request of a logged-in user for an existing message does.\<close>

lemma favorite_request:
  assumes "sess CURR_USER_KEY = Some a" and "User_query_get db a = Some u"
    and "req_method r = POST" and "csrf_ok r"
    and "Message_query_get db i = Some msg"
  shows "handle_request cfg db sess (Favorite i) r
           = respond (db\<lparr>likes := (if (a, i) \<in> set (likes db)
                                    then remove1 (a, i) (likes db)
                                    else likes db @ [(a, i)])\<rparr>) sess
               (Redirect_origin (form_origin_url r))"
proof -
  have ids: "u_id u = a" "m_id msg = i"
    using assms by (simp_all add: User_query_get_Some Message_query_get_Some)
  show ?thesis
    using assms ids
    by (simp add: handle_request_def logged_in_g handle_favorites_def Let_def
          csrf_validate_on_submit_def commit_same_users in_liked_iff)
qed

text \<open>
  C5. For a logged-in user with a valid token and an existing message, in a
  likes table without repeated rows: when the like edge is absent, one request
  adds it, and two requests in a row give back the database and the session
  they started from, so the message is un-favorited again; when the like edge
  is present, one request removes it, and a second one puts it back.
\<close>

theorem handle_favorites_toggle:
  assumes "sess CURR_USER_KEY = Some a" and "User_query_get db a = Some u"
    and "req_method r = POST" and "csrf_ok r"
    and "Message_query_get db i = Some msg"
    and "distinct (likes db)"
  shows "((a, i) \<notin> set (likes db) \<longrightarrow>
            likes (out_db (handle_request cfg db sess (Favorite i) r)) = likes db @ [(a, i)]
            \<and> run cfg (db, sess) [(Favorite i, r), (Favorite i, r)] = (db, sess))
         \<and> ((a, i) \<in> set (likes db) \<longrightarrow>
            likes (out_db (handle_request cfg db sess (Favorite i) r)) = remove1 (a, i) (likes db)
            \<and> (a, i) \<notin> set (likes (out_db (handle_request cfg db sess (Favorite i) r)))
            \<and> (a, i) \<in> set (likes (fst (run cfg (db, sess) [(Favorite i, r), (Favorite i, r)]))))"
proof (intro conjI impI)
  assume absent: "(a, i) \<notin> set (likes db)"
  let ?db1 = "db\<lparr>likes := likes db @ [(a, i)]\<rparr>"
  have one: "handle_request cfg db sess (Favorite i) r
               = respond ?db1 sess (Redirect_origin (form_origin_url r))"
    using assms absent by (simp add: favorite_request)
  show "likes (out_db (handle_request cfg db sess (Favorite i) r)) = likes db @ [(a, i)]"
    by (simp add: one respond_def)
  have u1: "User_query_get ?db1 a = Some u" and m1: "Message_query_get ?db1 i = Some msg"
    using assms by (simp_all add: User_query_get_def Message_query_get_def)
  have "handle_request cfg ?db1 sess (Favorite i) r
          = respond (?db1\<lparr>likes := remove1 (a, i) (likes ?db1)\<rparr>) sess
              (Redirect_origin (form_origin_url r))"
    using favorite_request [of sess a ?db1 u r i msg cfg] assms(1,3,4) u1 m1 by simp
  moreover have "remove1 (a, i) (likes db @ [(a, i)]) = likes db"
    using absent by (simp add: remove1_append)
  ultimately have two: "handle_request cfg ?db1 sess (Favorite i) r
          = respond db sess (Redirect_origin (form_origin_url r))"
    by simp
  show "run cfg (db, sess) [(Favorite i, r), (Favorite i, r)] = (db, sess)"
    by (simp add: one two respond_def Let_def)
next
  assume present: "(a, i) \<in> set (likes db)"
  then show "likes (out_db (handle_request cfg db sess (Favorite i) r)) = remove1 (a, i) (likes db)"
    using assms by (simp add: favorite_request respond_def)
  show "(a, i) \<notin> set (likes (out_db (handle_request cfg db sess (Favorite i) r)))"
    using assms present by (simp add: favorite_request respond_def)
  let ?db1 = "db\<lparr>likes := remove1 (a, i) (likes db)\<rparr>"
  have one: "handle_request cfg db sess (Favorite i) r
               = respond ?db1 sess (Redirect_origin (form_origin_url r))"
    using assms present by (simp add: favorite_request)
  have u1: "User_query_get ?db1 a = Some u" and m1: "Message_query_get ?db1 i = Some msg"
    using assms by (simp_all add: User_query_get_def Message_query_get_def)
  have gone: "(a, i) \<notin> set (likes ?db1)" using assms(6) by simp
  have two: "handle_request cfg ?db1 sess (Favorite i) r
          = respond (?db1\<lparr>likes := likes ?db1 @ [(a, i)]\<rparr>) sess
              (Redirect_origin (form_origin_url r))"
    using favorite_request [of sess a ?db1 u r i msg cfg] assms(1,3,4) u1 m1 gone by simp
  show "(a, i) \<in> set (likes (fst (run cfg (db, sess) [(Favorite i, r), (Favorite i, r)])))"
    by (simp add: one two respond_def Let_def)
qed

theorem handle_favorites_toggle_witness:
  "likes (out_db (handle_request cfg0 db0 sess_alice (Favorite 3) post0)) = [(1, 2), (1, 3)]
   \<and> run cfg0 (db0, sess_alice) [(Favorite 3, post0), (Favorite 3, post0)] = (db0, sess_alice)
   \<and> likes (out_db (handle_request cfg0 db0 sess_alice (Favorite 2) post0)) = []"
  using handle_favorites_toggle [of sess_alice 1 db0 alice post0 3 msg3 cfg0]
    handle_favorites_toggle [of sess_alice 1 db0 alice post0 2 msg2 cfg0]
  by (simp add: User_query_get_def Message_query_get_def example_defs)

subsection \<open>Deleting a message\<close>

lemma anonymous_g:
  "sess CURR_USER_KEY = None \<Longrightarrow>
   add_user_and_csrf_to_g db sess = \<lparr>g_user = None, g_csrf_form = False\<rparr>"
  by (simp add: add_user_and_csrf_to_g_def)

lemma msg1_found: "Message_query_get db0 1 = Some msg1"
  by (simp add: Message_query_get_def db0_def msg1_def)

lemma msg2_found: "Message_query_get db0 2 = Some msg2"
  by (simp add: Message_query_get_def db0_def msg1_def msg2_def)

lemma g_user_alice: "g_user (add_user_and_csrf_to_g db0 sess_alice) = Some alice"
  by (simp add: g_alice)

text \<open>The four ways a delete request for an existing message ends.\<close>

lemma delete_message_anonymous:
  assumes "Message_query_get db i = Some msg" and "req_method r = POST"
    and "g_user (add_user_and_csrf_to_g db sess) = None"
  shows "handle_request cfg db sess (Delete_message i) r = access_unauthorized db sess"
  using assms by (simp add: handle_request_def delete_message_def)

lemma delete_message_not_owner:
  assumes "Message_query_get db i = Some msg" and "req_method r = POST"
    and "g_user (add_user_and_csrf_to_g db sess) = Some u" and "m_user_id msg \<noteq> u_id u"
  shows "handle_request cfg db sess (Delete_message i) r = access_unauthorized db sess"
  using assms by (simp add: handle_request_def delete_message_def)

lemma delete_message_bad_token:
  assumes "Message_query_get db i = Some msg" and "req_method r = POST"
    and "g_user (add_user_and_csrf_to_g db sess) = Some u" and "m_user_id msg = u_id u"
    and "\<not> csrf_ok r"
  shows "handle_request cfg db sess (Delete_message i) r = raise db sess Unauthorized"
  using assms by (simp add: handle_request_def delete_message_def csrf_validate_on_submit_def)

lemma delete_message_owner:
  assumes "Message_query_get db i = Some msg" and "req_method r = POST"
    and "g_user (add_user_and_csrf_to_g db sess) = Some u" and "m_user_id msg = u_id u"
    and "csrf_ok r"
  shows "handle_request cfg db sess (Delete_message i) r
           = respond (db\<lparr>messages := filter (\<lambda>m. m_id m \<noteq> i) (messages db)\<rparr>) sess
               (Redirect (''/users/'' @ str_of_nat (u_id u)))"
  using assms
  by (simp add: handle_request_def delete_message_def csrf_validate_on_submit_def
        commit_same_users Message_query_get_Some)

text \<open>
  C6, as amended. For every delete request (POST) for an existing message: the
  message is deleted exactly when the requester is its owner and the
  anti-forgery token is valid; an anonymous requester and a non-owner leave
  the database as it was and are answered by the redirect to the root with the
  flashed warning; an owner with an invalid token leaves the database as it
  was and gets the Unauthorized exception, with nothing flashed.
\<close>

theorem delete_message_authorization:
  assumes "Message_query_get db i = Some msg" and "req_method r = POST"
  shows
    "(Message_query_get (out_db (handle_request cfg db sess (Delete_message i) r)) i = None
        \<longrightarrow> (\<exists>u. g_user (add_user_and_csrf_to_g db sess) = Some u \<and> m_user_id msg = u_id u)
             \<and> csrf_ok r)
     \<and> ((\<exists>u. g_user (add_user_and_csrf_to_g db sess) = Some u \<and> m_user_id msg = u_id u)
          \<and> csrf_ok r
        \<longrightarrow> Message_query_get (out_db (handle_request cfg db sess (Delete_message i) r)) i = None)
     \<and> (g_user (add_user_and_csrf_to_g db sess) = None
          \<or> (\<exists>u. g_user (add_user_and_csrf_to_g db sess) = Some u \<and> m_user_id msg \<noteq> u_id u)
        \<longrightarrow> out_db (handle_request cfg db sess (Delete_message i) r) = db
             \<and> out_flashes (handle_request cfg db sess (Delete_message i) r)
                 = [(''Access unauthorized.'', ''danger'')]
             \<and> out_response (handle_request cfg db sess (Delete_message i) r)
                 = Inr (Redirect ''/''))
     \<and> ((\<exists>u. g_user (add_user_and_csrf_to_g db sess) = Some u \<and> m_user_id msg = u_id u)
          \<and> \<not> csrf_ok r
        \<longrightarrow> out_db (handle_request cfg db sess (Delete_message i) r) = db
             \<and> out_flashes (handle_request cfg db sess (Delete_message i) r) = []
             \<and> out_response (handle_request cfg db sess (Delete_message i) r)
                 = Inl Unauthorized)"
proof (cases "g_user (add_user_and_csrf_to_g db sess)")
  case None
  with assms show ?thesis
    by (simp add: delete_message_anonymous access_unauthorized_def flash_and_def)
next
  case (Some u)
  show ?thesis
  proof (cases "m_user_id msg = u_id u")
    case False
    with assms Some show ?thesis
      by (simp add: delete_message_not_owner access_unauthorized_def flash_and_def)
  next
    case owner: True
    show ?thesis
    proof (cases "csrf_ok r")
      case True
      with assms Some owner show ?thesis
        by (simp add: delete_message_owner respond_def Message_query_get_filter_same)
    next
      case False
      with assms Some owner show ?thesis
        by (simp add: delete_message_bad_token raise_def)
    qed
  qed
qed

theorem delete_message_authorization_witness:
  "Message_query_get db0 2 = Some msg2 \<and> req_method post0 = POST
   \<and> g_user (add_user_and_csrf_to_g db0 sess_alice) = Some alice
   \<and> m_user_id msg2 \<noteq> u_id alice
   \<and> out_db (handle_request cfg0 db0 sess_alice (Delete_message 2) post0) = db0
   \<and> out_flashes (handle_request cfg0 db0 sess_alice (Delete_message 2) post0)
        = [(''Access unauthorized.'', ''danger'')]
   \<and> out_response (handle_request cfg0 db0 sess_alice (Delete_message 2) post0)
        = Inr (Redirect ''/'')
   \<and> Message_query_get (out_db (handle_request cfg0 db0 sess_alice (Delete_message 1) post0)) 1
        = None"
proof -
  have other: "m_user_id msg2 \<noteq> u_id alice" by (simp add: msg2_def alice_def)
  have own: "m_user_id msg1 = u_id alice" by (simp add: msg1_def alice_def)
  have post: "req_method post0 = POST" and tok: "csrf_ok post0" by (simp_all add: post0_def)
  from delete_message_authorization [OF msg2_found post, of cfg0 sess_alice]
    delete_message_authorization [OF msg1_found post, of cfg0 sess_alice]
  show ?thesis using msg2_found post other own tok by (simp add: g_user_alice)
qed

text \<open>
  C6, as stated, fails for the invalid token: alice owns message 1, her delete
  request carries an invalid token, and the answer is the Unauthorized
  exception, not a redirect, and no warning is flashed.
\<close>

theorem delete_message_bad_token_counterexample:
  "Message_query_get db0 1 = Some msg1
   \<and> g_user (add_user_and_csrf_to_g db0 sess_alice) = Some alice
   \<and> m_user_id msg1 = u_id alice
   \<and> out_response (handle_request cfg0 db0 sess_alice (Delete_message 1) (post0\<lparr>csrf_ok := False\<rparr>))
       = Inl Unauthorized
   \<and> out_flashes (handle_request cfg0 db0 sess_alice (Delete_message 1) (post0\<lparr>csrf_ok := False\<rparr>))
       = []"
proof -
  have own: "m_user_id msg1 = u_id alice" by (simp add: msg1_def alice_def)
  have post: "req_method (post0\<lparr>csrf_ok := False\<rparr>) = POST" by (simp add: post0_def)
  have bad: "\<not> csrf_ok (post0\<lparr>csrf_ok := False\<rparr>)" by simp
  from delete_message_bad_token [OF msg1_found post g_user_alice own bad, of cfg0]
  show ?thesis using msg1_found g_user_alice own by (simp add: raise_def)
qed

subsection \<open>Deleting the account\<close>

lemma do_logout_key: "do_logout sess CURR_USER_KEY = None"
  by (simp add: do_logout_def)

lemma do_logout_other: "k \<noteq> CURR_USER_KEY \<Longrightarrow> do_logout sess k = sess k"
  by (simp add: do_logout_def)

lemma delete_user_request:
  assumes "sess CURR_USER_KEY = Some a" and "User_query_get db a = Some u"
    and "req_method r = POST" and "csrf_ok r"
  shows "handle_request cfg db sess Delete_user r
           = respond (User_delete_cascade db a) (do_logout sess) (Redirect ''/signup'')"
proof -
  have "u_id u = a" using assms by (simp add: User_query_get_Some)
  moreover have "db_session_commit db (User_delete_cascade db a) = Inr (User_delete_cascade db a)"
    by (rule commit_old_users) (auto simp: User_delete_cascade_def Let_def)
  ultimately show ?thesis
    using assms
    by (simp add: handle_request_def logged_in_g delete_user_def csrf_validate_on_submit_def)
qed

text \<open>
  C7. For a logged-in user with a valid token the account-delete request
  removes the user's record and leaves the other accounts in place; afterwards
  no message has the user as its author, no follow edge has the user at either
  end and no like edge is the user's; the session no longer carries the
  current-user key; the answer is the redirect to the signup page. The cascade
  is that of the data layer, modelled from the spec.
\<close>

theorem delete_user_cascade:
  assumes "sess CURR_USER_KEY = Some a" and "User_query_get db a = Some u"
    and "req_method r = POST" and "csrf_ok r"
  shows "User_query_get (out_db (handle_request cfg db sess Delete_user r)) a = None
         \<and> (\<forall>v \<in> set (users db). u_id v \<noteq> a \<longrightarrow>
               v \<in> set (users (out_db (handle_request cfg db sess Delete_user r))))
         \<and> (\<forall>m \<in> set (messages (out_db (handle_request cfg db sess Delete_user r))).
               m_user_id m \<noteq> a)
         \<and> (\<forall>e \<in> set (follows (out_db (handle_request cfg db sess Delete_user r))).
               fst e \<noteq> a \<and> snd e \<noteq> a)
         \<and> (\<forall>e \<in> set (likes (out_db (handle_request cfg db sess Delete_user r))).
               fst e \<noteq> a)
         \<and> out_session (handle_request cfg db sess Delete_user r) CURR_USER_KEY = None
         \<and> out_response (handle_request cfg db sess Delete_user r) = Inr (Redirect ''/signup'')"
proof -
  have "User_query_get (User_delete_cascade db a) a = None"
    by (simp add: User_query_get_def User_delete_cascade_def Let_def find_None_iff)
  moreover note delete_user_request [of sess a db u r cfg]
  ultimately show ?thesis
    using assms
    by (simp add: respond_def do_logout_key) (simp add: User_delete_cascade_def Let_def)
qed

theorem delete_user_cascade_witness:
  "User_query_get (out_db (handle_request cfg0 db0 sess_alice Delete_user post0)) 1 = None
   \<and> users (out_db (handle_request cfg0 db0 sess_alice Delete_user post0)) = [bob, carol]
   \<and> messages (out_db (handle_request cfg0 db0 sess_alice Delete_user post0)) = [msg2, msg3]
   \<and> follows (out_db (handle_request cfg0 db0 sess_alice Delete_user post0)) = []
   \<and> likes (out_db (handle_request cfg0 db0 sess_alice Delete_user post0)) = []
   \<and> out_session (handle_request cfg0 db0 sess_alice Delete_user post0) CURR_USER_KEY = None
   \<and> out_response (handle_request cfg0 db0 sess_alice Delete_user post0) = Inr (Redirect ''/signup'')"
proof -
  have k: "sess_alice CURR_USER_KEY = Some 1" by (simp add: sess_alice_def)
  have a: "User_query_get db0 1 = Some alice"
    by (simp add: User_query_get_def db0_def alice_def)
  have post: "req_method post0 = POST" and tok: "csrf_ok post0" by (simp_all add: post0_def)
  have c: "User_delete_cascade db0 (Suc 0)
             = \<lparr>users = [bob, carol], messages = [msg2, msg3], follows = [], likes = []\<rparr>"
    by (simp add: User_delete_cascade_def Let_def db0_def alice_def bob_def carol_def
          msg1_def msg2_def msg3_def)
  from delete_user_cascade [of sess_alice 1 db0 alice post0 cfg0]
    delete_user_request [of sess_alice 1 db0 alice post0 cfg0]
  show ?thesis using k a post tok by (simp add: respond_def c)
qed

subsection \<open>Signing up\<close>

lemma signup_request:
  "handle_request cfg db sess Signup r = signup cfg db sess r"
  by (cases "req_method r") (simp_all add: handle_request_def)

lemma commit_duplicate:
  assumes "v \<in> set (users db)"
    and "u_username v = name \<or> u_email v = mail"
  shows "db_session_commit db (snd (User_signup cfg name pw mail img db)) = Inl IntegrityError"
proof -
  let ?new = "fst (User_signup cfg name pw mail img db)"
  have id: "u_id ?new = fresh_user_id db" and nm: "u_username ?new = name"
    and ml: "u_email ?new = mail"
    by (simp_all add: User_signup_def Let_def)
  have us: "users (snd (User_signup cfg name pw mail img db)) = users db @ [?new]"
    by (simp add: User_signup_def Let_def)
  have fresh: "\<forall>w \<in> set (users db). u_id w \<noteq> u_id ?new"
    using fresh_user_id_new [of _ db] id by fastforce
  then have notin: "?new \<notin> set (users db)" by blast
  have "unique_violation (users db @ [?new]) ?new"
    unfolding unique_violation_def list_ex_iff using assms fresh nm ml by auto
  with notin show ?thesis
    unfolding db_session_commit_def us list_ex_iff by auto
qed

lemma commit_new_user:
  assumes "\<forall>v \<in> set (users db). u_username v \<noteq> name \<and> u_email v \<noteq> mail"
  shows "db_session_commit db (snd (User_signup cfg name pw mail img db))
           = Inr (snd (User_signup cfg name pw mail img db))"
  using assms
  by (auto simp: db_session_commit_def User_signup_def Let_def list_ex_iff unique_violation_def)

text \<open>
  C2. A submitted, valid signup form whose username or email is that of an
  existing user: the commit of the new row fails with IntegrityError, nothing
  of the transaction reaches the database, which is exactly the one before the
  request (so the original account is as it was), nobody is logged in, and the
  signup form is rendered again with the flashed error notice.
\<close>

theorem signup_duplicate_rejected:
  assumes "req_method r = POST" and "csrf_ok r" and "fields_ok r"
    and "v \<in> set (users db)"
    and "u_username v = form_username r \<or> u_email v = form_email r"
  shows "(\<forall>img. db_session_commit db
                  (snd (User_signup cfg (form_username r) (form_password r) (form_email r) img db))
                = Inl IntegrityError)
         \<and> out_db (handle_request cfg db sess Signup r) = db
         \<and> out_session (handle_request cfg db sess Signup r) CURR_USER_KEY = None
         \<and> out_flashes (handle_request cfg db sess Signup r)
              = [(''Username already taken'', ''danger'')]
         \<and> out_response (handle_request cfg db sess Signup r)
              = Inr (Render ''users/signup.html'' Ctx_form)"
proof -
  have dup: "\<And>img. db_session_commit db
                  (snd (User_signup cfg (form_username r) (form_password r) (form_email r) img db))
                = Inl IntegrityError"
    using assms(4,5) by (rule commit_duplicate)
  have "signup cfg db sess r
          = flash_and db (do_logout sess) ''Username already taken'' ''danger''
              (Render ''users/signup.html'' Ctx_form)"
    using assms(1-3) dup
    by (simp add: signup_def Let_def form_validate_on_submit_def split_beta)
  then show ?thesis
    using dup by (simp add: signup_request flash_and_def do_logout_key)
qed

theorem signup_duplicate_rejected_witness:
  "out_db (handle_request cfg0 db0 sess_alice Signup (post0\<lparr>form_username := ''bob''\<rparr>)) = db0
   \<and> out_session (handle_request cfg0 db0 sess_alice Signup (post0\<lparr>form_username := ''bob''\<rparr>))
        CURR_USER_KEY = None
   \<and> out_flashes (handle_request cfg0 db0 sess_alice Signup (post0\<lparr>form_username := ''bob''\<rparr>))
        = [(''Username already taken'', ''danger'')]
   \<and> out_response (handle_request cfg0 db0 sess_alice Signup (post0\<lparr>form_username := ''bob''\<rparr>))
        = Inr (Render ''users/signup.html'' Ctx_form)"
proof -
  let ?r = "post0\<lparr>form_username := ''bob''\<rparr>"
  have r: "req_method ?r = POST" "csrf_ok ?r" "fields_ok ?r" by (simp_all add: post0_def)
  have b: "bob \<in> set (users db0)" by (simp add: db0_def)
  have d: "u_username bob = form_username ?r \<or> u_email bob = form_email ?r"
    by (simp add: bob_def)
  from signup_duplicate_rejected [OF r b d, of cfg0 sess_alice] show ?thesis by simp
qed

text \<open>
  C10. Every request to the signup route, whatever its method and outcome,
  works on the session with the current-user key removed: the session it
  leaves is either that logged-out session or the logged-out session with the
  key set to the id of a user who is in the database now and whose id was not
  in use before. In particular the key is absent or names the new user, and a
  GET request leaves the key absent and the database as it was.
\<close>

theorem signup_session:
  "(out_session (handle_request cfg db sess Signup r) = do_logout sess
      \<or> (\<exists>u. out_session (handle_request cfg db sess Signup r) = do_login (do_logout sess) u
             \<and> u \<in> set (users (out_db (handle_request cfg db sess Signup r)))
             \<and> User_query_get db (u_id u) = None))
   \<and> do_logout sess CURR_USER_KEY = None
   \<and> (out_session (handle_request cfg db sess Signup r) CURR_USER_KEY = None
      \<or> (\<exists>u. out_session (handle_request cfg db sess Signup r) CURR_USER_KEY = Some (u_id u)
             \<and> u \<in> set (users (out_db (handle_request cfg db sess Signup r)))
             \<and> User_query_get db (u_id u) = None))
   \<and> (req_method r = GET \<longrightarrow>
        out_session (handle_request cfg db sess Signup r) CURR_USER_KEY = None
        \<and> out_db (handle_request cfg db sess Signup r) = db)"
proof -
  let ?o = "signup cfg db sess r"
  let ?img = "if form_image_url r = [] then default_image_url cfg else form_image_url r"
  let ?p = "User_signup cfg (form_username r) (form_password r) (form_email r) ?img db"
  have new: "User_query_get db (u_id (fst ?p)) = None"
    using fresh_user_id_new [of _ db]
    by (fastforce simp: User_query_get_def User_signup_def Let_def find_None_iff)
  have mem: "fst ?p \<in> set (users (snd ?p))" by (simp add: User_signup_def Let_def)
  have cases: "?o = respond db (do_logout sess) (Render ''users/signup.html'' Ctx_form)
        \<or> ?o = flash_and db (do_logout sess) ''Username already taken'' ''danger''
                 (Render ''users/signup.html'' Ctx_form)
        \<or> ?o = respond (snd ?p) (do_login (do_logout sess) (fst ?p)) (Redirect ''/'')"
    by (auto simp: signup_def Let_def split_beta db_session_commit_def split: sum.splits)
  have first: "out_session ?o = do_logout sess
      \<or> (\<exists>u. out_session ?o = do_login (do_logout sess) u
             \<and> u \<in> set (users (out_db ?o)) \<and> User_query_get db (u_id u) = None)"
    using cases new mem by (auto simp: respond_def flash_and_def raise_def)
  then have key: "out_session ?o CURR_USER_KEY = None
      \<or> (\<exists>u. out_session ?o CURR_USER_KEY = Some (u_id u)
             \<and> u \<in> set (users (out_db ?o)) \<and> User_query_get db (u_id u) = None)"
    by (auto simp: do_logout_key do_login_def)
  have get: "req_method r = GET \<longrightarrow> out_session ?o CURR_USER_KEY = None \<and> out_db ?o = db"
    by (simp add: signup_def Let_def form_validate_on_submit_def respond_def do_logout_key)
  from first key get show ?thesis by (simp add: signup_request do_logout_key)
qed

theorem signup_session_witness:
  "req_method get0 = GET \<and> sess_alice CURR_USER_KEY = Some 1
   \<and> out_session (handle_request cfg0 db0 sess_alice Signup get0) CURR_USER_KEY = None
   \<and> out_db (handle_request cfg0 db0 sess_alice Signup get0) = db0"
proof -
  have "req_method get0 = GET" by (simp add: get0_def)
  with signup_session [of cfg0 db0 sess_alice get0] show ?thesis
    by (simp add: sess_alice_def)
qed

subsection \<open>Unknown ids\<close>

text \<open>
  C9. A logged-in user asks for a user id that matches no record. The profile,
  following and followers pages raise NotFound, as get_or_404 does; the likes
  page reads the user with query.get and renders its template with no user
  instead.
\<close>

theorem unknown_user_id:
  assumes "g_user (add_user_and_csrf_to_g db sess) = Some u" and "req_method r = GET"
    and "User_query_get db i = None"
  shows "out_response (handle_request cfg db sess (Show_likes i) r)
           = Inr (Render ''users/liked_warbles.html'' (Ctx_user None))
         \<and> out_response (handle_request cfg db sess (Show_user i) r) = Inl NotFound
         \<and> out_response (handle_request cfg db sess (Show_following i) r) = Inl NotFound
         \<and> out_response (handle_request cfg db sess (Show_followers i) r) = Inl NotFound"
  using assms
  by (simp add: handle_request_def show_favorite_warbles_def show_user_def show_following_def
        show_followers_def respond_def raise_def)

theorem unknown_user_id_witness:
  "User_query_get db0 9 = None
   \<and> out_response (handle_request cfg0 db0 sess_alice (Show_likes 9) get0)
       = Inr (Render ''users/liked_warbles.html'' (Ctx_user None))
   \<and> out_response (handle_request cfg0 db0 sess_alice (Show_user 9) get0) = Inl NotFound"
proof -
  have n: "User_query_get db0 9 = None"
    by (simp add: User_query_get_def db0_def alice_def bob_def carol_def)
  have g: "req_method get0 = GET" by (simp add: get0_def)
  from unknown_user_id [OF g_user_alice g n, of cfg0] n show ?thesis by simp
qed

subsection \<open>What a request can do to the edge tables\<close>

lemma commit_Inr: "db_session_commit db work = Inr db' \<Longrightarrow> db' = work"
  by (simp add: db_session_commit_def split: if_splits)

lemmas outcome_defs = respond_def flash_and_def raise_def access_unauthorized_def

lemma signup_follows: "follows (out_db (signup cfg db sess r)) = follows db"
  by (auto simp: signup_def Let_def split_beta User_signup_def outcome_defs
           split: sum.splits dest!: commit_Inr)

lemma signup_likes: "likes (out_db (signup cfg db sess r)) = likes db"
  by (auto simp: signup_def Let_def split_beta User_signup_def outcome_defs
           split: sum.splits dest!: commit_Inr)

lemma add_message_follows: "follows (out_db (add_message g db sess r)) = follows db"
  by (auto simp: add_message_def Let_def outcome_defs
           split: option.splits sum.splits dest!: commit_Inr)

lemma add_message_likes: "likes (out_db (add_message g db sess r)) = likes db"
  by (auto simp: add_message_def Let_def outcome_defs
           split: option.splits sum.splits dest!: commit_Inr)

lemma delete_message_follows: "follows (out_db (delete_message g db sess r i)) = follows db"
  by (auto simp: delete_message_def outcome_defs
           split: option.splits sum.splits dest!: commit_Inr)

lemma delete_message_likes: "likes (out_db (delete_message g db sess r i)) = likes db"
  by (auto simp: delete_message_def outcome_defs
           split: option.splits sum.splits dest!: commit_Inr)

lemma handle_favorites_follows: "follows (out_db (handle_favorites g db sess r i)) = follows db"
  by (auto simp: handle_favorites_def Let_def outcome_defs
           split: option.splits sum.splits dest!: commit_Inr)

lemma start_following_likes: "likes (out_db (start_following g db sess r i)) = likes db"
  by (auto simp: start_following_def following_append_def outcome_defs
           split: option.splits sum.splits dest!: commit_Inr)

lemma stop_following_likes: "likes (out_db (stop_following g db sess r i)) = likes db"
  by (auto simp: stop_following_def outcome_defs
           split: option.splits sum.splits dest!: commit_Inr)

lemma stop_following_follows:
  "set (follows (out_db (stop_following g db sess r i))) \<subseteq> set (follows db)"
  by (auto simp: stop_following_def outcome_defs
           split: option.splits sum.splits dest!: commit_Inr
           dest: set_remove1_subset [THEN subsetD])

lemma delete_user_follows:
  "set (follows (out_db (delete_user g db sess r))) \<subseteq> set (follows db)"
  by (auto simp: delete_user_def outcome_defs User_delete_cascade_def Let_def
           split: option.splits sum.splits dest!: commit_Inr)

lemma delete_user_likes:
  "distinct (likes db) \<Longrightarrow> distinct (likes (out_db (delete_user g db sess r)))"
  by (auto simp: delete_user_def outcome_defs User_delete_cascade_def Let_def
           split: option.splits sum.splits dest!: commit_Inr)

lemma handle_favorites_likes:
  "distinct (likes db) \<Longrightarrow> distinct (likes (out_db (handle_favorites g db sess r i)))"
  by (auto simp: handle_favorites_def Let_def outcome_defs in_liked_iff
           split: option.splits sum.splits if_splits
           dest!: commit_Inr dest: Message_query_get_Some)

text \<open>The self-follow test compares the two records; both come from the same table.\<close>

lemma same_id_same_user:
  "User_query_get db a = Some u \<Longrightarrow> User_query_get db b = Some v \<Longrightarrow> u_id v = u_id u \<Longrightarrow> v = u"
proof -
  assume u: "User_query_get db a = Some u" and v: "User_query_get db b = Some v"
    and same: "u_id v = u_id u"
  from u v have "u_id u = a" and "u_id v = b" by (simp_all add: User_query_get_Some)
  with same have "a = b" by simp
  with u v show "v = u" by simp
qed

lemma start_following_follows:
  assumes "g = add_user_and_csrf_to_g db sess"
  shows "set (follows (out_db (start_following g db sess r i)))
           \<subseteq> set (follows db) \<union> {e. fst e \<noteq> snd e}"
  using assms
  by (auto simp: start_following_def following_append_def outcome_defs add_user_and_csrf_to_g_def
           split: option.splits sum.splits if_splits
           dest!: commit_Inr dest: same_id_same_user)

lemma handle_request_follows:
  "set (follows (out_db (handle_request cfg db sess rt r)))
     \<subseteq> set (follows db) \<union> {e. fst e \<noteq> snd e}"
proof (cases "req_method r \<in> set (allowed rt)")
  case False
  then show ?thesis by (simp add: handle_request_def raise_def)
next
  case True
  show ?thesis
  proof (cases rt)
    case (Follow i)
    with True start_following_follows [of "add_user_and_csrf_to_g db sess" db sess r i]
    show ?thesis by (simp add: handle_request_def)
  next
    case (Stop_following i)
    with True stop_following_follows [of "add_user_and_csrf_to_g db sess" db sess r i]
    show ?thesis by (auto simp: handle_request_def)
  next
    case Delete_user
    with True delete_user_follows [of "add_user_and_csrf_to_g db sess" db sess r]
    show ?thesis by (auto simp: handle_request_def)
  qed (use True in \<open>auto simp: handle_request_def signup_follows add_message_follows
         delete_message_follows handle_favorites_follows show_user_def show_following_def
         show_followers_def show_favorite_warbles_def show_message_def outcome_defs
         split: option.splits\<close>)
qed

lemma handle_request_no_self_follow:
  "no_self_follow db \<Longrightarrow> no_self_follow (out_db (handle_request cfg db sess rt r))"
  using handle_request_follows [of cfg db sess rt r]
  by (auto simp: no_self_follow_def list_all_iff)

lemma run_no_self_follow:
  "no_self_follow (fst st) \<Longrightarrow> no_self_follow (fst (run cfg st reqs))"
proof (induction reqs arbitrary: st)
  case Nil
  then show ?case by simp
next
  case (Cons x xs)
  have "no_self_follow (out_db (handle_request cfg (fst st) (snd st) (fst x) (snd x)))"
    using Cons.prems by (rule handle_request_no_self_follow)
  then show ?case using Cons.IH by (simp add: Let_def)
qed

text \<open>The likes table stays free of repeated rows, whatever is requested.\<close>

lemma handle_request_distinct_likes:
  "distinct (likes db) \<Longrightarrow> distinct (likes (out_db (handle_request cfg db sess rt r)))"
proof (cases "req_method r \<in> set (allowed rt)")
  case False
  assume "distinct (likes db)"
  with False show ?thesis by (simp add: handle_request_def raise_def)
next
  case True
  assume d: "distinct (likes db)"
  show ?thesis
  proof (cases rt)
    case (Favorite i)
    with True d handle_favorites_likes [of db "add_user_and_csrf_to_g db sess" sess r i]
    show ?thesis by (simp add: handle_request_def)
  next
    case Delete_user
    with True d delete_user_likes [of db "add_user_and_csrf_to_g db sess" sess r]
    show ?thesis by (simp add: handle_request_def)
  qed (use True d in \<open>auto simp: handle_request_def signup_likes add_message_likes
         delete_message_likes start_following_likes stop_following_likes
         show_user_def show_following_def
         show_followers_def show_favorite_warbles_def show_message_def outcome_defs
         split: option.splits\<close>)
qed

lemma run_distinct_likes:
  "distinct (likes (fst st)) \<Longrightarrow> distinct (likes (fst (run cfg st reqs)))"
proof (induction reqs arbitrary: st)
  case Nil
  then show ?case by simp
next
  case (Cons x xs)
  have "distinct (likes (out_db (handle_request cfg (fst st) (snd st) (fst x) (snd x))))"
    using Cons.prems by (rule handle_request_distinct_likes)
  then show ?case using Cons.IH by (simp add: Let_def)
qed






subsection \<open>Following\<close>




subsection \<open>Following oneself\<close>

text \<open>
  C8. A logged-in user with a valid token asks to follow the own id: the
  database is left as it was, the message that one cannot follow oneself is
  flashed, and the answer is the redirect to the user list. And from a
  database without a self-follow edge no run of requests, of whatever routes
  and sessions, leads to a database with one.
\<close>

theorem self_follow_rejected:
  assumes "sess CURR_USER_KEY = Some a" and "User_query_get db a = Some u"
    and "req_method r = POST" and "csrf_ok r"
    and "no_self_follow db"
  shows "out_db (handle_request cfg db sess (Follow a) r) = db
         \<and> out_flashes (handle_request cfg db sess (Follow a) r)
              = [(''You can not follow yourself.'', ''danger'')]
         \<and> out_response (handle_request cfg db sess (Follow a) r) = Inr (Redirect ''/users'')
         \<and> (a, a) \<notin> set (follows (fst (run cfg (db, sess) reqs)))
         \<and> no_self_follow (fst (run cfg (db, sess) reqs))"
proof -
  have "handle_request cfg db sess (Follow a) r
          = flash_and db sess ''You can not follow yourself.'' ''danger'' (Redirect ''/users'')"
    using assms(1-4)
    by (simp add: handle_request_def logged_in_g start_following_def csrf_validate_on_submit_def)
  moreover have inv: "no_self_follow (fst (run cfg (db, sess) reqs))"
    using run_no_self_follow [of "(db, sess)" cfg reqs] assms(5) by simp
  moreover from inv have "(a, a) \<notin> set (follows (fst (run cfg (db, sess) reqs)))"
    by (auto simp: no_self_follow_def list_all_iff)
  ultimately show ?thesis by (simp add: flash_and_def)
qed

theorem self_follow_rejected_witness:
  "no_self_follow db0
   \<and> out_db (handle_request cfg0 db0 sess_alice (Follow 1) post0) = db0
   \<and> out_flashes (handle_request cfg0 db0 sess_alice (Follow 1) post0)
        = [(''You can not follow yourself.'', ''danger'')]
   \<and> out_response (handle_request cfg0 db0 sess_alice (Follow 1) post0) = Inr (Redirect ''/users'')
   \<and> (1, 1) \<notin> set (follows (fst (run cfg0 (db0, sess_alice) [(Follow 1, post0), (Follow 3, post0)])))"
proof -
  have k: "sess_alice CURR_USER_KEY = Some 1" by (simp add: sess_alice_def)
  have a: "User_query_get db0 1 = Some alice"
    by (simp add: User_query_get_def db0_def alice_def)
  have post: "req_method post0 = POST" and tok: "csrf_ok post0" by (simp_all add: post0_def)
  have inv: "no_self_follow db0" by (simp add: no_self_follow_def db0_def)
  from self_follow_rejected [of sess_alice 1 db0 alice post0 cfg0
      "[(Follow 1, post0), (Follow 3, post0)]"] k a post tok inv
  show ?thesis by blast
qed

end
